theory Spec2Isabelle
  imports Complex_Main
begin

section \<open>Data model of \<^verbatim>\<open>gen_waveforms.py\<close>\<close>

text \<open>
  Samples are the finite \<^verbatim>\<open>float32\<close> values that \<^verbatim>\<open>soundfile\<close> hands out, and a sample is
  modelled by the real number it denotes. The reducer only compares samples: \<^verbatim>\<open>np.max\<close>,
  \<^verbatim>\<open>np.min\<close> and \<^verbatim>\<open>np.abs\<close> are exact on finite floats, and the comparison of line 72 is
  a comparison of two \<^verbatim>\<open>float32\<close> values, because numpy casts the Python float on its right
  to the type of the array; the threshold of the model is therefore the value after that
  cast. The time axis is computed in exact real arithmetic; the rounding of \<^verbatim>\<open>float64\<close>
  is outside the model. Python integers that count frames are natural numbers.
\<close>

type_synonym sample = real

datatype py_error = IndexError | ValueError | ZeroDivisionError

text \<open>
  A block read from the file is a numpy array: one-dimensional for a mono file,
  otherwise two-dimensional with one row per frame.
\<close>

datatype ndarray = Array1 "sample list" | Array2 "sample list list"

text \<open>
  An audio file that exists and decodes: what \<^verbatim>\<open>sf.info\<close> reports and the frames
  \<^verbatim>\<open>sf.SoundFile\<close> reads, one row of \<open>channels\<close> samples per frame.
\<close>

record sound_file =
  file_name :: string
  channels :: nat
  samplerate :: nat
  frames_data :: "sample list list"

definition frames :: "sound_file \<Rightarrow> nat" where
  "frames f = length (frames_data f)"

text \<open>
  What soundfile guarantees of a file it opens: at least one channel, a positive sample
  rate, and frames that all have one sample per channel.
\<close>

definition wf_file :: "sound_file \<Rightarrow> bool" where
  "wf_file f \<longleftrightarrow>
     0 < channels f \<and> 0 < samplerate f \<and> list_all (\<lambda>fr. length fr = channels f) (frames_data f)"

record reducer_state =
  downsampled_data :: "sample list list"
  clipped_status :: "bool list list"

section \<open>The chunk source\<close>

text \<open>
  \<^verbatim>\<open>SoundFile.blocks(blocksize=n)\<close> of the soundfile library reads the file front to back,
  \<open>n\<close> frames at a time; the last block holds the frames that are left. No block is empty.
  A block size of zero cannot occur: it is five times a positive sample rate.
\<close>

function sf_blocks_rows :: "nat \<Rightarrow> 'a list \<Rightarrow> 'a list list" where
  "sf_blocks_rows blocksize xs =
     (if blocksize = 0 \<or> xs = [] then []
      else take blocksize xs # sf_blocks_rows blocksize (drop blocksize xs))"
  by pat_completeness auto
termination
  by (relation "measure (\<lambda>(blocksize, xs). length xs)") auto

definition to_ndarray :: "nat \<Rightarrow> sample list list \<Rightarrow> ndarray" where
  "to_ndarray num_channels rows = (if num_channels = 1 then Array1 (concat rows) else Array2 rows)"

definition sf_blocks :: "sound_file \<Rightarrow> nat \<Rightarrow> ndarray list" where
  "sf_blocks f blocksize = map (to_ndarray (channels f)) (sf_blocks_rows blocksize (frames_data f))"

section \<open>The reducer (lines 42 to 74)\<close>

definition target_points :: nat where
  "target_points = 50000"

text \<open>
  Lines 43 to 46. \<^verbatim>\<open>int(total_samples / target_points)\<close> divides as floats and truncates;
  for frame counts below \<open>2^53\<close> that is the integer quotient.
\<close>

definition downsample_factor :: "nat \<Rightarrow> nat \<Rightarrow> nat" where
  "downsample_factor tp total_samples =
     (if total_samples > tp then total_samples div tp else 1)"

definition chunk_size_samples :: "sound_file \<Rightarrow> nat" where
  "chunk_size_samples f = samplerate f * 5"

text \<open>
  Line 72 compares with \<^verbatim>\<open>1.0 - 1e-6\<close>. The array is \<^verbatim>\<open>float32\<close>, so numpy compares with the
  \<^verbatim>\<open>float32\<close> nearest to that number, which is \<open>16777199 / 2^24 = 1 - 17 / 2^24\<close>, a little
  below \<open>1 - 10^-6\<close>.
\<close>

definition clip_threshold :: real where
  "clip_threshold = 16777199 / 16777216"

definition bind_err :: "py_error + 'a \<Rightarrow> ('a \<Rightarrow> py_error + 'b) \<Rightarrow> py_error + 'b" where
  "bind_err m k = (case m of Inl e \<Rightarrow> Inl e | Inr v \<Rightarrow> k v)"

fun for_each :: "('a \<Rightarrow> 's \<Rightarrow> py_error + 's) \<Rightarrow> 'a list \<Rightarrow> 's \<Rightarrow> py_error + 's" where
  "for_each body [] st = Inr st"
| "for_each body (x # xs) st = bind_err (body x st) (for_each body xs)"

text \<open>\<^verbatim>\<open>np.max\<close> and \<^verbatim>\<open>np.min\<close> raise \<^verbatim>\<open>ValueError\<close> on an empty array.\<close>

fun np_max :: "sample list \<Rightarrow> py_error + sample" where
  "np_max [] = Inl ValueError"
| "np_max (x # xs) = Inr (fold max xs x)"

fun np_min :: "sample list \<Rightarrow> py_error + sample" where
  "np_min [] = Inl ValueError"
| "np_min (x # xs) = Inr (fold min xs x)"

definition np_any :: "bool list \<Rightarrow> bool" where
  "np_any bs = list_ex (\<lambda>b. b) bs"

text \<open>\<^verbatim>\<open>xss[i].append(v)\<close>: an index outside the outer list raises \<^verbatim>\<open>IndexError\<close>.\<close>

definition append_at :: "nat \<Rightarrow> 'a \<Rightarrow> 'a list list \<Rightarrow> py_error + 'a list list" where
  "append_at i v xss = (if i < length xss then Inr (xss[i := xss ! i @ [v]]) else Inl IndexError)"

text \<open>\<^verbatim>\<open>xs[lo:hi]\<close> for \<open>0 \<le> lo \<le> hi\<close>.\<close>

definition slice :: "nat \<Rightarrow> nat \<Rightarrow> 'a list \<Rightarrow> 'a list" where
  "slice lo hi xs = take (hi - lo) (drop lo xs)"

text \<open>\<^verbatim>\<open>range(0, stop, step)\<close>: a zero step raises \<^verbatim>\<open>ValueError\<close>.\<close>

definition py_range_step :: "nat \<Rightarrow> nat \<Rightarrow> py_error + nat list" where
  "py_range_step stop step =
     (if step = 0 then Inl ValueError
      else Inr (map (\<lambda>k. k * step) [0..<(stop + step - 1) div step]))"

text \<open>
  Lines 65 to 74: the body of the innermost loop, for channel \<open>i\<close> and one window. The
  threshold of line 72, as the comparison sees it, is an argument of the loops; the code
  passes \<open>clip_threshold\<close>.
\<close>

definition process_window ::
  "real \<Rightarrow> nat \<Rightarrow> sample list \<Rightarrow> reducer_state \<Rightarrow> py_error + reducer_state" where
  "process_window threshold i window st =
     (if length window > 0 then
        bind_err (np_max window) (\<lambda>mx.
        bind_err (append_at i mx (downsampled_data st)) (\<lambda>dd1.
        bind_err (np_min window) (\<lambda>mn.
        bind_err (append_at i mn dd1) (\<lambda>dd2.
        let is_clipped = np_any (map (\<lambda>x. \<bar>x\<bar> \<ge> threshold) window) in
        bind_err (append_at i is_clipped (clipped_status st)) (\<lambda>cs1.
        bind_err (append_at i is_clipped cs1) (\<lambda>cs2.
        Inr \<lparr>downsampled_data = dd2, clipped_status = cs2\<rparr>))))))
      else Inr st)"

text \<open>Lines 64 to 74: the loop over the windows of one channel of one block.\<close>

definition process_channel ::
  "real \<Rightarrow> nat \<Rightarrow> nat \<Rightarrow> sample list \<Rightarrow> reducer_state \<Rightarrow> py_error + reducer_state" where
  "process_channel threshold factor i channel_data st =
     bind_err (py_range_step (length channel_data) factor) (\<lambda>js.
       for_each (\<lambda>j. process_window threshold i (slice j (j + factor) channel_data)) js st)"

text \<open>Lines 59 to 63: \<^verbatim>\<open>block.reshape(-1, 1)\<close> for a one-dimensional block, then \<^verbatim>\<open>block.T\<close>.\<close>

definition block_T :: "ndarray \<Rightarrow> sample list list" where
  "block_T block =
     transpose (case block of Array1 xs \<Rightarrow> map (\<lambda>x. [x]) xs | Array2 rows \<Rightarrow> rows)"

definition process_block ::
  "real \<Rightarrow> nat \<Rightarrow> ndarray \<Rightarrow> reducer_state \<Rightarrow> py_error + reducer_state" where
  "process_block threshold factor block st =
     for_each (\<lambda>(i, channel_data). process_channel threshold factor i channel_data)
       (enumerate 0 (block_T block)) st"

definition init_state :: "nat \<Rightarrow> reducer_state" where
  "init_state num_channels =
     \<lparr>downsampled_data = replicate num_channels [], clipped_status = replicate num_channels []\<rparr>"

text \<open>Lines 35 to 74: from the file to the two accumulators, for a given threshold.\<close>

definition reduce_stream_with :: "real \<Rightarrow> sound_file \<Rightarrow> py_error + reducer_state" where
  "reduce_stream_with threshold f =
     (let num_channels = channels f;
          total_samples = frames f;
          factor = downsample_factor target_points total_samples
      in for_each (process_block threshold factor) (sf_blocks f (chunk_size_samples f))
           (init_state num_channels))"

text \<open>Lines 35 to 74 as the code runs them: with the threshold of line 72.\<close>

definition reduce_stream :: "sound_file \<Rightarrow> py_error + reducer_state" where
  "reduce_stream f = reduce_stream_with clip_threshold f"

section \<open>The time axis and the plot (lines 76 to 130)\<close>

text \<open>
  \<^verbatim>\<open>np.linspace(start, stop, num)\<close> of numpy with its default \<^verbatim>\<open>endpoint=True\<close>: no point
  for \<open>num = 0\<close>, the start alone for \<open>num = 1\<close>, otherwise \<open>start + k * step\<close> with
  \<open>step = (stop - start) / (num - 1)\<close>, the last point overwritten by \<open>stop\<close>.
\<close>

definition np_linspace :: "real \<Rightarrow> real \<Rightarrow> nat \<Rightarrow> real list" where
  "np_linspace start stop num =
     (if num = 0 then []
      else if num = 1 then [start]
      else (map (\<lambda>k. real k * ((stop - start) / real (num - 1)) + start) [0..<num])
             [num - 1 := stop])"

text \<open>Lines 93 to 95.\<close>

definition time_axis :: "sound_file \<Rightarrow> reducer_state \<Rightarrow> py_error + real list" where
  "time_axis f st =
     (case downsampled_data st of
        [] \<Rightarrow> Inl IndexError
      | channel0 # _ \<Rightarrow>
          let total_downsampled_points = length channel0 in
          if samplerate f = 0 then Inl ZeroDivisionError
          else
            let total_duration = real (frames f) / real (samplerate f)
            in Inr (np_linspace 0 total_duration total_downsampled_points))"

text \<open>
  Lines 97 to 120, as far as the data goes: every axis reads \<^verbatim>\<open>time_downsampled[0]\<close> and
  \<^verbatim>\<open>time_downsampled[-1]\<close>, which raises \<^verbatim>\<open>IndexError\<close> on an empty axis, and then receives the
  two masked curves (\<open>None\<close> stands for \<^verbatim>\<open>np.nan\<close>). The calls into matplotlib are taken
  to succeed.
\<close>

record channel_plot =
  xlim :: "real \<times> real"
  non_clipped_data :: "sample option list"
  clipped_data :: "sample option list"

record image =
  title :: string
  time_downsampled :: "real list"
  axes :: "channel_plot list"

definition plot_channel :: "real list \<Rightarrow> sample list \<Rightarrow> bool list \<Rightarrow> channel_plot" where
  "plot_channel t channel_data channel_clipped =
     \<lparr>xlim = (hd t, last t),
      non_clipped_data = map2 (\<lambda>c v. if c then None else Some v) channel_clipped channel_data,
      clipped_data = map2 (\<lambda>c v. if \<not> c then None else Some v) channel_clipped channel_data\<rparr>"

definition render :: "sound_file \<Rightarrow> reducer_state \<Rightarrow> real list \<Rightarrow> py_error + image" where
  "render f st t =
     (if channels f > 0 \<and> t = [] then Inl IndexError
      else Inr \<lparr>title = file_name f, time_downsampled = t,
                axes = map (\<lambda>i. plot_channel t (downsampled_data st ! i) (clipped_status st ! i))
                         [0..<channels f]\<rparr>)"

text \<open>
  The whole function. Its argument is the decoded file at \<^verbatim>\<open>input_path\<close>, or \<open>None\<close> when
  the path does not exist. The \<^verbatim>\<open>except Exception\<close> clause catches every error and prints
  it, so nothing is ever raised to the caller: \<open>raised\<close> records what leaves the function.
\<close>

datatype message =
  Failed_to_find | Reading_chunks | Plotting_waveforms | Successfully_generated
  | An_error_occurred py_error

record run_result =
  printed :: "message list"
  saved :: "image option"
  raised :: "py_error option"

definition visualize_waveform :: "sound_file option \<Rightarrow> run_result" where
  "visualize_waveform input =
     (case input of
        None \<Rightarrow> \<lparr>printed = [Failed_to_find], saved = None, raised = None\<rparr>
      | Some f \<Rightarrow>
          (case reduce_stream f of
             Inl e \<Rightarrow> \<lparr>printed = [Reading_chunks, An_error_occurred e], saved = None, raised = None\<rparr>
           | Inr st \<Rightarrow>
               (case bind_err (time_axis f st) (render f st) of
                  Inl e \<Rightarrow> \<lparr>printed = [Reading_chunks, Plotting_waveforms, An_error_occurred e],
                             saved = None, raised = None\<rparr>
                | Inr img \<Rightarrow> \<lparr>printed = [Reading_chunks, Plotting_waveforms, Successfully_generated],
                               saved = Some img, raised = None\<rparr>)))"

section \<open>The windows a run forms\<close>

text \<open>
  The windows of the loop at line 64 for one channel of one block: one slice per value of
  \<open>j\<close> in \<^verbatim>\<open>range(0, len(channel_data), downsample_factor)\<close>.
\<close>

definition channel_windows :: "nat \<Rightarrow> sample list \<Rightarrow> sample list list" where
  "channel_windows factor channel_data =
     map (\<lambda>j. slice j (j + factor) channel_data)
       (map (\<lambda>k. k * factor) [0..<(length channel_data + factor - 1) div factor])"

text \<open>
  The executions of the loop body in the order the three nested loops reach them: block
  by block, inside a block channel by channel, inside a channel window by window. Each
  is a channel index and a window.
\<close>

definition block_events :: "nat \<Rightarrow> ndarray \<Rightarrow> (nat \<times> sample list) list" where
  "block_events factor block =
     concat (map (\<lambda>(i, channel_data). map (Pair i) (channel_windows factor channel_data))
       (enumerate 0 (block_T block)))"

definition flush_events :: "sound_file \<Rightarrow> (nat \<times> sample list) list" where
  "flush_events f =
     concat (map (block_events (downsample_factor target_points (frames f)))
       (sf_blocks f (chunk_size_samples f)))"

definition windows_of :: "nat \<Rightarrow> (nat \<times> sample list) list \<Rightarrow> sample list list" where
  "windows_of i evs = map snd (filter (\<lambda>(j, w). j = i) evs)"

definition emitted_windows :: "sound_file \<Rightarrow> nat \<Rightarrow> sample list list" where
  "emitted_windows f i = windows_of i (flush_events f)"

text \<open>The accumulators after the first \<open>k\<close> executions of the loop body.\<close>

definition state_after :: "sound_file \<Rightarrow> nat \<Rightarrow> py_error + reducer_state" where
  "state_after f k =
     for_each (\<lambda>(i, w). process_window clip_threshold i w) (take k (flush_events f))
       (init_state (channels f))"

text \<open>The samples of channel \<open>i\<close> over the whole file.\<close>

definition channel_stream :: "sound_file \<Rightarrow> nat \<Rightarrow> sample list" where
  "channel_stream f i = map (\<lambda>fr. fr ! i) (frames_data f)"

definition window_clipped :: "real \<Rightarrow> sample list \<Rightarrow> bool" where
  "window_clipped threshold w \<longleftrightarrow> (\<exists>x \<in> set w. \<bar>x\<bar> \<ge> threshold)"

definition window_points :: "sample list \<Rightarrow> sample list" where
  "window_points w = [Max (set w), Min (set w)]"

definition window_flags :: "real \<Rightarrow> sample list \<Rightarrow> bool list" where
  "window_flags threshold w = [window_clipped threshold w, window_clipped threshold w]"

section \<open>Outputs of a run\<close>

text \<open>The length of the output of channel \<open>i\<close> (line 93 reads it for channel 0).\<close>

definition output_length :: "sound_file \<Rightarrow> nat \<Rightarrow> py_error + nat" where
  "output_length f i =
     (case reduce_stream f of Inl e \<Rightarrow> Inl e | Inr st \<Rightarrow> Inr (length (downsampled_data st ! i)))"

text \<open>The points of channel \<open>i\<close> as the renderer pairs them: value and clip flag.\<close>

definition channel_series :: "sound_file \<Rightarrow> nat \<Rightarrow> py_error + (sample \<times> bool) list" where
  "channel_series f i =
     (case reduce_stream f of
        Inl e \<Rightarrow> Inl e
      | Inr st \<Rightarrow> Inr (zip (downsampled_data st ! i) (clipped_status st ! i)))"


section \<open>The reference of the specification\<close>

text \<open>
  The reference of the specification, in its words: the samples of one channel over the
  whole file are cut into consecutive windows of \<open>downsample_factor\<close> samples (the last
  one shorter), whatever the blocks were, and every window gives its maximum and its
  minimum, each with the window's clip flag. The threshold is the one the code compares
  with.
\<close>

definition window_pairs :: "real \<Rightarrow> sample list \<Rightarrow> (sample \<times> bool) list" where
  "window_pairs threshold w =
     [(Max (set w), window_clipped threshold w), (Min (set w), window_clipped threshold w)]"

definition unblocked_reference :: "sound_file \<Rightarrow> nat \<Rightarrow> (sample \<times> bool) list" where
  "unblocked_reference f i =
     concat (map (window_pairs clip_threshold)
       (channel_windows (downsample_factor target_points (frames f)) (channel_stream f i)))"

section \<open>Example inputs\<close>

text \<open>A stereo file of three frames.\<close>

definition stereo_file :: sound_file where
  "stereo_file = \<lparr>file_name = ''stereo.wav'', channels = 2, samplerate = 8000,
     frames_data = [[0.5, -1], [0.25, 0.3], [-0.75, 1]]\<rparr>"

text \<open>A mono file of 400000 silent frames at a given sample rate.\<close>

definition long_file :: "nat \<Rightarrow> sound_file" where
  "long_file sr = \<lparr>file_name = ''long.wav'', channels = 1, samplerate = sr,
     frames_data = replicate 400000 [0]\<rparr>"

text \<open>
  A mono file of 100002 frames: silence, and then the samples 1, -0.5 and 0.25. Its
  factor is 2 and it is read as one block.
\<close>

definition tail_file :: sound_file where
  "tail_file = \<lparr>file_name = ''tail.wav'', channels = 1, samplerate = 44100,
     frames_data = replicate 99999 [0] @ [[1], [-0.5], [0.25]]\<rparr>"

text \<open>A mono file and a stereo file without frames.\<close>

definition empty_file :: sound_file where
  "empty_file = \<lparr>file_name = ''empty.wav'', channels = 1, samplerate = 44100, frames_data = []\<rparr>"

definition empty_stereo_file :: sound_file where
  "empty_stereo_file =
     \<lparr>file_name = ''empty2.wav'', channels = 2, samplerate = 48000, frames_data = []\<rparr>"

text \<open>
  The ten samples of the scenario of the specification as a mono file holds them: each of
  0.1, 1.0, -1.0, 0.2, 0.99, -0.5, 0.0, 0.999999, -0.999999 and 0.3 as the \<^verbatim>\<open>float32\<close>
  nearest to it.
\<close>

definition scenario_file :: sound_file where
  "scenario_file = \<lparr>file_name = ''scenario.wav'', channels = 1, samplerate = 44100,
     frames_data =
       [[13421773 / 134217728], [1], [-1], [13421773 / 67108864], [4152361 / 4194304],
        [- (1 / 2)], [0], [16777199 / 16777216], [- (16777199 / 16777216)],
        [5033165 / 16777216]]\<rparr>"

text \<open>
  A mono file of one frame: the largest \<^verbatim>\<open>float32\<close> below \<open>1 - 10^-6\<close>, which is the
  threshold of the comparison itself.
\<close>

definition edge_file :: sound_file where
  "edge_file = \<lparr>file_name = ''edge.wav'', channels = 1, samplerate = 44100,
     frames_data = [[16777199 / 16777216]]\<rparr>"

section \<open>Auxiliary facts\<close>

declare sf_blocks_rows.simps [simp del]

lemma sf_blocks_rows_Nil [simp]: "sf_blocks_rows n [] = []"
  by (simp add: sf_blocks_rows.simps)

lemma sf_blocks_rows_zero [simp]: "sf_blocks_rows 0 xs = []"
  by (simp add: sf_blocks_rows.simps)

lemma sf_blocks_rows_step:
  "0 < n \<Longrightarrow> xs \<noteq> [] \<Longrightarrow> sf_blocks_rows n xs = take n xs # sf_blocks_rows n (drop n xs)"
  by (subst sf_blocks_rows.simps) simp

lemma bind_err_simps [simp]: "bind_err (Inl e) k = Inl e" "bind_err (Inr v) k = k v"
  by (simp_all add: bind_err_def)

lemma for_each_append:
  "for_each body (xs @ ys) st = bind_err (for_each body xs st) (for_each body ys)"
proof (induction xs arbitrary: st)
  case Nil
  show ?case by simp
next
  case (Cons x xs)
  show ?case by (cases "body x st") (simp_all add: Cons.IH)
qed

lemma for_each_concat:
  "for_each body (concat xss) st = for_each (\<lambda>xs. for_each body xs) xss st"
proof (induction xss arbitrary: st)
  case Nil
  show ?case by simp
next
  case (Cons xs xss)
  show ?case
    by (cases "for_each body xs st") (simp_all add: for_each_append Cons.IH)
qed

lemma for_each_map: "for_each body (map g xs) st = for_each (\<lambda>x. body (g x)) xs st"
proof (induction xs arbitrary: st)
  case Nil
  show ?case by simp
next
  case (Cons x xs)
  show ?case by (cases "body (g x) st") (simp_all add: Cons.IH)
qed

lemma downsample_factor_pos: "0 < downsample_factor target_points n"
  by (simp add: downsample_factor_def target_points_def div_greater_zero_iff)

lemma process_channel_events:
  "0 < factor \<Longrightarrow> process_channel thr factor i channel_data st =
     for_each (\<lambda>(i, w). process_window thr i w)
       (map (Pair i) (channel_windows factor channel_data)) st"
  by (simp add: process_channel_def py_range_step_def channel_windows_def for_each_map)

lemma process_block_events:
  assumes "0 < factor"
  shows "process_block thr factor block st =
     for_each (\<lambda>(i, w). process_window thr i w) (block_events factor block) st"
proof -
  have "(\<lambda>(i, channel_data). process_channel thr factor i channel_data) =
        (\<lambda>p. for_each (\<lambda>(i, w). process_window thr i w)
               (case p of (i, channel_data) \<Rightarrow> map (Pair i) (channel_windows factor channel_data)))"
    by (auto simp: fun_eq_iff process_channel_events [OF assms])
  then show ?thesis
    by (simp add: process_block_def block_events_def for_each_concat for_each_map)
qed

lemma reduce_stream_with_events:
  "reduce_stream_with thr f =
     for_each (\<lambda>(i, w). process_window thr i w) (flush_events f) (init_state (channels f))"
proof -
  have "process_block thr (downsample_factor target_points (frames f)) =
        (\<lambda>b. for_each (\<lambda>(i, w). process_window thr i w)
               (block_events (downsample_factor target_points (frames f)) b))"
    by (auto simp: fun_eq_iff process_block_events [OF downsample_factor_pos])
  then show ?thesis
    by (simp add: reduce_stream_with_def flush_events_def for_each_concat for_each_map)
qed

lemma reduce_stream_events:
  "reduce_stream f =
     for_each (\<lambda>(i, w). process_window clip_threshold i w) (flush_events f)
       (init_state (channels f))"
  by (simp add: reduce_stream_def reduce_stream_with_events)

lemma fold_max_Max: "fold max xs (x::real) = Max (set (x # xs))"
  by (simp only: Max.set_eq_fold)

lemma fold_min_Min: "fold min xs (x::real) = Min (set (x # xs))"
  by (simp only: Min.set_eq_fold)

lemma process_window_ok:
  assumes "w \<noteq> []" "i < length (downsampled_data st)" "i < length (clipped_status st)"
  shows "process_window thr i w st = Inr
     \<lparr>downsampled_data = (downsampled_data st)[i := downsampled_data st ! i @ [Max (set w), Min (set w)]],
      clipped_status = (clipped_status st)[i := clipped_status st ! i @ [window_clipped thr w, window_clipped thr w]]\<rparr>"
proof -
  obtain x xs where w: "w = x # xs" using assms(1) by (cases w) auto
  have any: "np_any (map (\<lambda>x. \<bar>x\<bar> \<ge> thr) w) = window_clipped thr w"
    by (simp add: np_any_def window_clipped_def list_ex_iff)
  have mx: "np_max w = Inr (Max (set w))" and mn: "np_min w = Inr (Min (set w))"
    unfolding w by (simp_all only: np_max.simps np_min.simps fold_max_Max fold_min_Min)
  show ?thesis
    using assms(2,3) unfolding process_window_def any mx mn
    by (simp add: append_at_def w Let_def)
qed

lemma for_each_events:
  assumes "\<forall>(i, w) \<in> set evs. i < n \<and> w \<noteq> []"
    and "length (downsampled_data st) = n" and "length (clipped_status st) = n"
  shows "\<exists>st'. for_each (\<lambda>(i, w). process_window thr i w) evs st = Inr st'
           \<and> length (downsampled_data st') = n \<and> length (clipped_status st') = n
           \<and> (\<forall>i < n. downsampled_data st' ! i =
                   downsampled_data st ! i @ concat (map window_points (windows_of i evs))
                 \<and> clipped_status st' ! i =
                   clipped_status st ! i @ concat (map (window_flags thr) (windows_of i evs)))"
  using assms
proof (induction evs arbitrary: st)
  case Nil
  then show ?case by (simp add: windows_of_def)
next
  case (Cons ev evs)
  obtain i w where ev: "ev = (i, w)" by (cases ev)
  from Cons.prems ev have iw: "i < n" "w \<noteq> []" by auto
  define st1 where "st1 =
     \<lparr>downsampled_data = (downsampled_data st)[i := downsampled_data st ! i @ [Max (set w), Min (set w)]],
      clipped_status = (clipped_status st)[i := clipped_status st ! i @ [window_clipped thr w, window_clipped thr w]]\<rparr>"
  have step: "process_window thr i w st = Inr st1"
    unfolding st1_def using iw Cons.prems(2,3) by (intro process_window_ok) auto
  have len1: "length (downsampled_data st1) = n" "length (clipped_status st1) = n"
    using Cons.prems(2,3) by (simp_all add: st1_def)
  from Cons.prems(1) have rest: "\<forall>(i, w) \<in> set evs. i < n \<and> w \<noteq> []" by simp
  from Cons.IH [OF rest len1] obtain st' where st':
    "for_each (\<lambda>(i, w). process_window thr i w) evs st1 = Inr st'"
    "length (downsampled_data st') = n" "length (clipped_status st') = n"
    "\<forall>k < n. downsampled_data st' ! k =
        downsampled_data st1 ! k @ concat (map window_points (windows_of k evs))
      \<and> clipped_status st' ! k =
        clipped_status st1 ! k @ concat (map (window_flags thr) (windows_of k evs))"
    by blast
  have run: "for_each (\<lambda>(i, w). process_window thr i w) (ev # evs) st = Inr st'"
    by (simp add: ev step st'(1))
  have pts: "\<forall>k < n. downsampled_data st' ! k =
        downsampled_data st ! k @ concat (map window_points (windows_of k (ev # evs)))
      \<and> clipped_status st' ! k =
        clipped_status st ! k @ concat (map (window_flags thr) (windows_of k (ev # evs)))"
  proof (intro allI impI)
    fix k assume k: "k < n"
    show "downsampled_data st' ! k =
        downsampled_data st ! k @ concat (map window_points (windows_of k (ev # evs)))
      \<and> clipped_status st' ! k =
        clipped_status st ! k @ concat (map (window_flags thr) (windows_of k (ev # evs)))"
      using st'(4) k Cons.prems(2,3)
      by (cases "k = i")
         (simp_all add: st1_def ev windows_of_def window_points_def window_flags_def)
  qed
  from run st'(2,3) pts show ?case by blast
qed

subsection \<open>Blocks and windows\<close>

lemma sf_blocks_rows_nonempty:
  "rows \<in> set (sf_blocks_rows n xs) \<Longrightarrow> rows \<noteq> [] \<and> set rows \<subseteq> set xs"
proof (induction n xs rule: sf_blocks_rows.induct)
  case (1 n xs)
  show ?case
  proof (cases "n = 0 \<or> xs = []")
    case True
    with "1.prems" show ?thesis by auto
  next
    case False
    with "1.prems" have "rows = take n xs \<or> rows \<in> set (sf_blocks_rows n (drop n xs))"
      by (simp add: sf_blocks_rows_step)
    then show ?thesis
    proof
      assume "rows = take n xs"
      with False show ?thesis by (auto dest: in_set_takeD)
    next
      assume "rows \<in> set (sf_blocks_rows n (drop n xs))"
      with "1.IH" [OF False] show ?thesis by (auto dest: in_set_dropD)
    qed
  qed
qed

lemma concat_sf_blocks_rows: "0 < n \<Longrightarrow> concat (sf_blocks_rows n xs) = xs"
proof (induction n xs rule: sf_blocks_rows.induct)
  case (1 n xs)
  show ?case
  proof (cases "xs = []")
    case True
    then show ?thesis by simp
  next
    case False
    with "1.prems" have "concat (sf_blocks_rows n xs) = take n xs @ concat (sf_blocks_rows n (drop n xs))"
      by (simp add: sf_blocks_rows_step)
    also have "\<dots> = take n xs @ drop n xs"
      using "1.IH" "1.prems" False by simp
    finally show ?thesis by simp
  qed
qed

lemma channel_windows_Nil [simp]: "channel_windows factor [] = []"
  by (cases factor) (simp_all add: channel_windows_def)

lemma ceil_div_small:
  fixes n d :: nat
  assumes "0 < n" "n < d"
  shows "(n + d - 1) div d = 1"
proof (rule div_nat_eqI)
  show "d * 1 \<le> n + d - 1" using assms by arith
  have "n + d - 1 < d + d" using assms by arith
  then show "n + d - 1 < d * Suc 1" by simp
qed

lemma channel_windows_rec:
  assumes "0 < d" "xs \<noteq> []"
  shows "channel_windows d xs = take d xs # channel_windows d (drop d xs)"
proof -
  let ?m = "(length xs + d - 1) div d"
  have m: "?m = Suc ((length (drop d xs) + d - 1) div d)"
  proof (cases "d \<le> length xs")
    case True
    then have "length xs + d - 1 = (length xs - d + d - 1) + d" using assms by simp
    then have "?m = (length xs - d + d - 1) div d + 1"
      using assms by (simp only: div_add_self2) 
    then show ?thesis by simp
  next
    case False
    then have lt: "length xs < d" by simp
    have pos: "0 < length xs" using assms by simp
    from pos lt have "?m = 1" by (rule ceil_div_small)
    with False show ?thesis by simp
  qed
  have upt: "[0..<Suc m'] = 0 # map Suc [0..<m']" for m'
    by (simp add: upt_conv_Cons map_Suc_upt del: upt_Suc)
  have sl: "slice (d + j) (d + j + d) xs = slice j (j + d) (drop d xs)" for j
    by (simp add: slice_def add.commute)
  show ?thesis
    unfolding channel_windows_def m upt
    by (simp add: o_def sl) (simp add: slice_def)
qed

lemma channel_windows_eq_rows: "0 < d \<Longrightarrow> channel_windows d xs = sf_blocks_rows d xs"
proof (induction d xs rule: sf_blocks_rows.induct)
  case (1 d xs)
  show ?case
  proof (cases "xs = []")
    case True
    then show ?thesis by simp
  next
    case False
    with "1.prems" "1.IH" show ?thesis
      by (simp add: sf_blocks_rows_step channel_windows_rec)
  qed
qed

lemma channel_windows_nonempty:
  "0 < d \<Longrightarrow> w \<in> set (channel_windows d xs) \<Longrightarrow> w \<noteq> []"
  using sf_blocks_rows_nonempty [of w d xs] by (simp add: channel_windows_eq_rows)

lemma concat_channel_windows: "0 < d \<Longrightarrow> concat (channel_windows d xs) = xs"
  by (simp add: channel_windows_eq_rows concat_sf_blocks_rows)

lemma concat_map_concat_channel_windows:
  "0 < d \<Longrightarrow> concat (concat (map (\<lambda>rows. channel_windows d (g rows)) xss)) = concat (map g xss)"
  by (induction xss) (simp_all add: concat_channel_windows)

lemma length_channel_windows:
  "length (channel_windows d xs) = (length xs + d - 1) div d"
  by (simp add: channel_windows_def)

lemma reshape_singletons:
  "\<forall>r \<in> set rows. length r = 1 \<Longrightarrow> map (\<lambda>x. [x]) (concat rows) = rows"
proof (induction rows)
  case Nil
  show ?case by simp
next
  case (Cons r rows)
  then obtain a where "r = [a]" by (cases r) auto
  with Cons show ?case by simp
qed

lemma transpose_rows:
  assumes "rows \<noteq> []" and "\<forall>r \<in> set rows. length r = n"
  shows "transpose rows = map (\<lambda>i. map (\<lambda>r. r ! i) rows) [0..<n]"
proof -
  have "transpose rows = map (\<lambda>i. map (\<lambda>j. rows ! j ! i) [0..<length rows]) [0..<n]"
    using assms by (intro transpose_rectangle) auto
  moreover have "map (\<lambda>j. rows ! j ! i) [0..<length rows] = map (\<lambda>r. r ! i) rows" for i
    by (rule nth_equalityI) simp_all
  ultimately show ?thesis by simp
qed

lemma block_T_to_ndarray:
  assumes "rows \<noteq> []" and "\<forall>r \<in> set rows. length r = n"
  shows "block_T (to_ndarray n rows) = map (\<lambda>i. map (\<lambda>r. r ! i) rows) [0..<n]"
proof (cases "n = 1")
  case True
  with assms(2) have "map (\<lambda>x. [x]) (concat rows) = rows"
    by (intro reshape_singletons) simp
  then show ?thesis
    using True transpose_rows [OF assms] by (simp add: block_T_def to_ndarray_def)
next
  case False
  then show ?thesis
    using transpose_rows [OF assms] by (simp add: block_T_def to_ndarray_def)
qed

lemma windows_of_append [simp]:
  "windows_of i (xs @ ys) = windows_of i xs @ windows_of i ys"
  by (simp add: windows_of_def)

lemma windows_of_Nil [simp]: "windows_of i [] = []"
  by (simp add: windows_of_def)

lemma windows_of_concat:
  "windows_of i (concat xss) = concat (map (windows_of i) xss)"
  by (induction xss) simp_all

lemma windows_of_Pair:
  "windows_of i (map (Pair j) ws) = (if j = i then ws else [])"
  by (cases "j = i") (simp_all add: windows_of_def filter_map o_def)

lemma nth_Cons_diff: "n < i \<Longrightarrow> (c # cs) ! (i - n) = cs ! (i - Suc n)"
  by (simp add: nth_Cons')

lemma windows_of_enumerate:
  "windows_of i (concat (map (\<lambda>(j, c). map (Pair j) (g c)) (enumerate n cs))) =
     (if n \<le> i \<and> i < n + length cs then g (cs ! (i - n)) else [])"
proof (induction cs arbitrary: n)
  case Nil
  show ?case by (cases "n \<le> i") simp_all
next
  case (Cons c cs)
  have step: "windows_of i (concat (map (\<lambda>(j, c). map (Pair j) (g c)) (enumerate n (c # cs)))) =
      (if n = i then g c else []) @
      (if Suc n \<le> i \<and> i < Suc n + length cs then g (cs ! (i - Suc n)) else [])"
    by (simp add: Cons.IH windows_of_Pair)
  consider (lt) "i < n" | (eq) "i = n" | (gt) "n < i" by arith
  then show ?case
  proof cases
    case lt
    then have "\<not> (n \<le> i \<and> i < n + length (c # cs))" "n \<noteq> i"
      "\<not> (Suc n \<le> i \<and> i < Suc n + length cs)" by simp_all
    then show ?thesis unfolding step by (simp only: if_False append_Nil)
  next
    case eq
    have c1: "\<not> (Suc n \<le> i \<and> i < Suc n + length cs)" using eq by simp
    have c2: "n \<le> i \<and> i < n + length (c # cs)" using eq by simp
    have c3: "(c # cs) ! (i - n) = c" using eq by simp
    show ?thesis unfolding step c3 using c1 c2 eq by (simp only: if_True if_False append_Nil2 refl simp_thms)
  next
    case gt
    have nth: "(c # cs) ! (i - n) = cs ! (i - Suc n)"
      using gt by (rule nth_Cons_diff)
    have c1: "n \<le> i" using gt by simp
    have c2: "Suc n \<le> i" using gt by simp
    have c3: "(i < Suc n + length cs) = (i < n + length (c # cs))" by simp
    from gt have "n \<noteq> i" by simp
    then show ?thesis unfolding step nth c3 using c1 c2 by (simp only: if_False append_Nil simp_thms)
  qed
qed

lemma windows_of_block_events:
  "windows_of i (block_events d block) =
     (if i < length (block_T block) then channel_windows d (block_T block ! i) else [])"
  by (simp add: block_events_def windows_of_enumerate)

lemma block_events_valid:
  assumes "0 < d" and "(i, w) \<in> set (block_events d block)"
  shows "i < length (block_T block) \<and> w \<noteq> []"
proof -
  from assms(2) obtain j c where jc: "(j, c) \<in> set (enumerate 0 (block_T block))"
      and iw: "(i, w) \<in> set (map (Pair j) (channel_windows d c))"
    by (auto simp: block_events_def)
  from iw have ij: "i = j" and w: "w \<in> set (channel_windows d c)" by auto
  from jc have "j < length (block_T block)" by (simp add: in_set_enumerate_eq)
  moreover from assms(1) w have "w \<noteq> []" by (rule channel_windows_nonempty)
  ultimately show ?thesis using ij by simp
qed

subsection \<open>Whole files\<close>

lemma wf_rows:
  assumes "wf_file f" and "rows \<in> set (sf_blocks_rows n (frames_data f))"
  shows "rows \<noteq> [] \<and> (\<forall>r \<in> set rows. length r = channels f)"
proof -
  from assms(2) have "rows \<noteq> []" "set rows \<subseteq> set (frames_data f)"
    using sf_blocks_rows_nonempty [of rows n "frames_data f"] by simp_all
  moreover from assms(1) have "\<forall>r \<in> set (frames_data f). length r = channels f"
    by (simp add: wf_file_def list_all_iff)
  ultimately show ?thesis by blast
qed

lemma wf_block_T:
  assumes "wf_file f" and "rows \<in> set (sf_blocks_rows n (frames_data f))"
  shows "block_T (to_ndarray (channels f) rows) =
           map (\<lambda>i. map (\<lambda>r. r ! i) rows) [0..<channels f]"
  using wf_rows [OF assms] by (intro block_T_to_ndarray) simp_all

lemma flush_events_valid:
  assumes "wf_file f" and "(i, w) \<in> set (flush_events f)"
  shows "i < channels f \<and> w \<noteq> []"
proof -
  let ?d = "downsample_factor target_points (frames f)"
  from assms(2) obtain rows where rows: "rows \<in> set (sf_blocks_rows (chunk_size_samples f) (frames_data f))"
    and ev: "(i, w) \<in> set (block_events ?d (to_ndarray (channels f) rows))"
    by (auto simp: flush_events_def sf_blocks_def)
  from block_events_valid [OF downsample_factor_pos ev]
  show ?thesis by (simp add: wf_block_T [OF assms(1) rows])
qed

lemma emitted_windows_blocks:
  assumes "wf_file f" and "i < channels f"
  shows "emitted_windows f i =
     concat (map (\<lambda>rows. channel_windows (downsample_factor target_points (frames f))
                           (map (\<lambda>r. r ! i) rows))
              (sf_blocks_rows (chunk_size_samples f) (frames_data f)))"
proof -
  let ?d = "downsample_factor target_points (frames f)"
  have "windows_of i (block_events ?d (to_ndarray (channels f) rows)) =
          channel_windows ?d (map (\<lambda>r. r ! i) rows)"
    if "rows \<in> set (sf_blocks_rows (chunk_size_samples f) (frames_data f))" for rows
    using assms(2) by (simp add: windows_of_block_events wf_block_T [OF assms(1) that])
  then show ?thesis
    by (simp add: emitted_windows_def flush_events_def sf_blocks_def windows_of_concat o_def
          cong: map_cong)
qed

lemma concat_emitted_windows:
  assumes "wf_file f" and "i < channels f"
  shows "concat (emitted_windows f i) = channel_stream f i"
proof -
  have chunk: "0 < chunk_size_samples f"
    using assms(1) by (simp add: wf_file_def chunk_size_samples_def)
  have "concat (emitted_windows f i) =
        concat (map (map (\<lambda>r. r ! i)) (sf_blocks_rows (chunk_size_samples f) (frames_data f)))"
    unfolding emitted_windows_blocks [OF assms]
    by (rule concat_map_concat_channel_windows [OF downsample_factor_pos])
  also have "\<dots> = map (\<lambda>r. r ! i) (concat (sf_blocks_rows (chunk_size_samples f) (frames_data f)))"
    by (simp add: map_concat)
  finally show ?thesis
    by (simp add: concat_sf_blocks_rows [OF chunk] channel_stream_def)
qed

lemma emitted_windows_nonempty:
  assumes "wf_file f" and "w \<in> set (emitted_windows f i)"
  shows "w \<noteq> []"
proof -
  from assms(2) have "(i, w) \<in> set (flush_events f)"
    by (auto simp: emitted_windows_def windows_of_def)
  with flush_events_valid [OF assms(1)] show ?thesis by blast
qed

lemma init_state_lengths [simp]:
  "length (downsampled_data (init_state n)) = n" "length (clipped_status (init_state n)) = n"
  by (simp_all add: init_state_def)

lemma init_state_nth [simp]:
  "i < n \<Longrightarrow> downsampled_data (init_state n) ! i = []"
  "i < n \<Longrightarrow> clipped_status (init_state n) ! i = []"
  by (simp_all add: init_state_def)

lemma reduce_stream_with_result:
  assumes "wf_file f"
  shows "\<exists>st. reduce_stream_with thr f = Inr st
           \<and> length (downsampled_data st) = channels f
           \<and> length (clipped_status st) = channels f
           \<and> (\<forall>i < channels f.
                 downsampled_data st ! i = concat (map window_points (emitted_windows f i))
               \<and> clipped_status st ! i = concat (map (window_flags thr) (emitted_windows f i)))"
proof -
  have valid: "\<forall>(i, w) \<in> set (flush_events f). i < channels f \<and> w \<noteq> []"
    using flush_events_valid [OF assms] by blast
  from for_each_events [OF valid init_state_lengths]
  show ?thesis
    by (simp add: reduce_stream_with_events emitted_windows_def)
qed

lemma reduce_stream_result:
  assumes "wf_file f"
  shows "\<exists>st. reduce_stream f = Inr st
           \<and> length (downsampled_data st) = channels f
           \<and> length (clipped_status st) = channels f
           \<and> (\<forall>i < channels f.
                 downsampled_data st ! i = concat (map window_points (emitted_windows f i))
               \<and> clipped_status st ! i =
                   concat (map (window_flags clip_threshold) (emitted_windows f i)))"
  unfolding reduce_stream_def by (rule reduce_stream_with_result [OF assms])

subsection \<open>Positions in the output\<close>

lemma length_concat_pairs:
  "(\<forall>w. length (g w) = 2) \<Longrightarrow> length (concat (map g ws)) = 2 * length ws"
  by (induction ws) simp_all

lemma nth_concat_pairs:
  assumes "k < length ws"
  shows "concat (map (\<lambda>w. [a w, b w]) ws) ! (2 * k) = a (ws ! k)
       \<and> concat (map (\<lambda>w. [a w, b w]) ws) ! (2 * k + 1) = b (ws ! k)"
  using assms
proof (induction ws arbitrary: k)
  case Nil
  then show ?case by simp
next
  case (Cons w ws)
  show ?case
  proof (cases k)
    case 0
    then show ?thesis by simp
  next
    case (Suc j)
    with Cons.prems have "j < length ws" by simp
    from Cons.IH [OF this] show ?thesis by (simp add: Suc)
  qed
qed

lemma window_points_nth:
  assumes "k < length ws"
  shows "concat (map window_points ws) ! (2 * k) = Max (set (ws ! k))"
    and "concat (map window_points ws) ! (2 * k + 1) = Min (set (ws ! k))"
  using nth_concat_pairs [OF assms, of "\<lambda>w. Max (set w)" "\<lambda>w. Min (set w)"]
  by (simp_all add: window_points_def [abs_def])

lemma window_flags_nth:
  assumes "k < length ws"
  shows "concat (map (window_flags thr) ws) ! (2 * k) = window_clipped thr (ws ! k)"
    and "concat (map (window_flags thr) ws) ! (2 * k + 1) = window_clipped thr (ws ! k)"
  using nth_concat_pairs [OF assms, of "window_clipped thr" "window_clipped thr"]
  by (simp_all add: window_flags_def [abs_def])

lemma length_window_points: "length (concat (map window_points ws)) = 2 * length ws"
  by (rule length_concat_pairs) (simp add: window_points_def)

lemma length_window_flags: "length (concat (map (window_flags thr) ws)) = 2 * length ws"
  by (rule length_concat_pairs) (simp add: window_flags_def)

subsection \<open>Counting windows\<close>

lemma sum_over_blocks:
  assumes "0 < c" and "g 0 = (0::nat)"
  shows "sum_list (map (\<lambda>rows. g (length rows)) (sf_blocks_rows c xs)) =
           (length xs div c) * g c + g (length xs mod c)"
  using assms
proof (induction c xs rule: sf_blocks_rows.induct)
  case (1 c xs)
  show ?case
  proof (cases "xs = []")
    case True
    with "1.prems" show ?thesis by simp
  next
    case False
    note step = sf_blocks_rows_step [OF "1.prems"(1) False]
    have IH: "sum_list (map (\<lambda>rows. g (length rows)) (sf_blocks_rows c (drop c xs))) =
           (length (drop c xs) div c) * g c + g (length (drop c xs) mod c)"
      using "1.IH" "1.prems" False by simp
    show ?thesis
    proof (cases "c \<le> length xs")
      case True
      then have "length xs div c = Suc ((length xs - c) div c)"
        using "1.prems"(1) by (simp add: le_div_geq)
      moreover have "length xs mod c = (length xs - c) mod c"
        using True by (simp add: le_mod_geq)
      ultimately show ?thesis
        using True by (simp add: step IH min_absorb2)
    next
      case False
      then show ?thesis
        using "1.prems" by (simp add: step IH)
    qed
  qed
qed

lemma length_emitted_windows:
  assumes "wf_file f" and "i < channels f"
  shows "length (emitted_windows f i) =
     (let c = chunk_size_samples f; d = downsample_factor target_points (frames f) in
        (frames f div c) * ((c + d - 1) div d) + (frames f mod c + d - 1) div d)"
proof -
  let ?c = "chunk_size_samples f" and ?d = "downsample_factor target_points (frames f)"
  have c: "0 < ?c" using assms(1) by (simp add: wf_file_def chunk_size_samples_def)
  have d: "(0 + ?d - 1) div ?d = 0" using downsample_factor_pos [of "frames f"] by simp
  have "length (emitted_windows f i) =
        sum_list (map (\<lambda>rows. (length rows + ?d - 1) div ?d) (sf_blocks_rows ?c (frames_data f)))"
    by (simp add: emitted_windows_blocks [OF assms] length_concat length_channel_windows o_def)
  also have "\<dots> = (frames f div ?c) * ((?c + ?d - 1) div ?d) + (frames f mod ?c + ?d - 1) div ?d"
    using sum_over_blocks [OF c, of "\<lambda>n. (n + ?d - 1) div ?d" "frames_data f"] d
    by (simp add: frames_def)
  finally show ?thesis by (simp add: Let_def)
qed

lemma channel_windows_one: "channel_windows (Suc 0) xs = map (\<lambda>x. [x]) xs"
proof -
  have "slice j (Suc j) xs = [xs ! j]" if "j < length xs" for j
    using that by (simp add: slice_def take_Suc_conv_app_nth Cons_nth_drop_Suc [symmetric])
  then have "map (\<lambda>j. slice j (Suc j) xs) [0..<length xs] = map (\<lambda>j. [xs ! j]) [0..<length xs]"
    by simp
  also have "\<dots> = map (\<lambda>x. [x]) (map (\<lambda>j. xs ! j) [0..<length xs])"
    by (simp add: o_def)
  also have "\<dots> = map (\<lambda>x. [x]) xs"
    by (simp only: map_nth)
  finally show ?thesis
    by (simp add: channel_windows_def o_def)
qed

lemma small_file_windows:
  assumes "wf_file f" and "frames f \<le> target_points" and "i < channels f"
  shows "emitted_windows f i = map (\<lambda>x. [x]) (channel_stream f i)"
proof -
  have d: "downsample_factor target_points (frames f) = 1"
    using assms(2) by (simp add: downsample_factor_def)
  have chunk: "0 < chunk_size_samples f"
    using assms(1) by (simp add: wf_file_def chunk_size_samples_def)
  have "emitted_windows f i =
     concat (map (\<lambda>rows. map (\<lambda>x. [x]) (map (\<lambda>r. r ! i) rows))
              (sf_blocks_rows (chunk_size_samples f) (frames_data f)))"
    by (simp add: emitted_windows_blocks [OF assms(1,3)] d channel_windows_one o_def)
  also have "\<dots> = map (\<lambda>x. [x]) (map (\<lambda>r. r ! i)
                 (concat (sf_blocks_rows (chunk_size_samples f) (frames_data f))))"
    by (simp add: map_concat o_def)
  finally show ?thesis
    by (simp add: concat_sf_blocks_rows [OF chunk] channel_stream_def)
qed

lemma wf_stereo_file: "wf_file stereo_file"
  by (simp add: wf_file_def stereo_file_def)

lemma replicate_two: "replicate 2 x = [x, x]"
  by (simp add: numeral_2_eq_2)

lemmas eval_defs = replicate_two flush_events_def frames_def downsample_factor_def target_points_def
  chunk_size_samples_def sf_blocks_def sf_blocks_rows_step to_ndarray_def block_events_def
  block_T_def channel_windows_def slice_def reduce_stream_def reduce_stream_with_def
  process_block_def
  process_channel_def py_range_step_def process_window_def append_at_def np_any_def
  clip_threshold_def init_state_def state_after_def Let_def enumerate_eq_zip

lemma flush_events_stereo_file:
  "flush_events stereo_file =
     [(0, [0.5]), (0, [0.25]), (0, [-0.75]), (1, [-1]), (1, [0.3]), (1, [1])]"
  by (simp add: eval_defs stereo_file_def)

lemma emitted_windows_stereo_file:
  "emitted_windows stereo_file 0 = [[0.5], [0.25], [-0.75]]"
  "emitted_windows stereo_file (Suc 0) = [[-1], [0.3], [1]]"
  by (simp_all add: emitted_windows_def windows_of_def flush_events_stereo_file)

lemma Min_le_Max_window: "w \<noteq> [] \<Longrightarrow> Min (set w) \<le> (Max (set w) :: real)"
  by (simp add: Min_le_iff)

lemma zip_points_flags:
  "zip (concat (map window_points ws)) (concat (map (window_flags thr) ws)) =
     concat (map (window_pairs thr) ws)"
  by (induction ws) (simp_all add: window_points_def window_flags_def window_pairs_def)

lemma channel_series_windows:
  assumes "wf_file f" and "i < channels f"
  shows "channel_series f i = Inr (concat (map (window_pairs clip_threshold) (emitted_windows f i)))"
proof -
  from reduce_stream_result [OF assms(1)] assms(2) obtain st where
    "reduce_stream f = Inr st"
    "downsampled_data st ! i = concat (map window_points (emitted_windows f i))"
    "clipped_status st ! i = concat (map (window_flags clip_threshold) (emitted_windows f i))"
    by blast
  then show ?thesis by (simp add: channel_series_def zip_points_flags)
qed

lemma output_length_blocks:
  assumes "wf_file f" and "i < channels f"
  shows "output_length f i = Inr (2 *
     ((frames f div chunk_size_samples f) *
        ((chunk_size_samples f + downsample_factor target_points (frames f) - 1)
           div downsample_factor target_points (frames f))
      + (frames f mod chunk_size_samples f + downsample_factor target_points (frames f) - 1)
           div downsample_factor target_points (frames f)))"
proof -
  from reduce_stream_result [OF assms(1)] assms(2) obtain st where
    "reduce_stream f = Inr st"
    "downsampled_data st ! i = concat (map window_points (emitted_windows f i))"
    by blast
  then show ?thesis
    using length_emitted_windows [OF assms]
    by (simp add: output_length_def length_window_points Let_def)
qed

lemma length_window_pairs: "length (concat (map (window_pairs thr) ws)) = 2 * length ws"
  by (rule length_concat_pairs) (simp add: window_pairs_def)

lemma length_channel_stream [simp]: "length (channel_stream f i) = frames f"
  by (simp add: channel_stream_def frames_def)

lemma wf_long_file: "0 < sr \<Longrightarrow> wf_file (long_file sr)"
  by (simp add: wf_file_def long_file_def list_all_iff)

lemma long_file_facts:
  "frames (long_file sr) = 400000"
  "downsample_factor target_points (frames (long_file sr)) = 8"
  "downsample_factor target_points 400000 = 8"
  "chunk_size_samples (long_file sr) = sr * 5"
  "channels (long_file sr) = 1"
  by (simp_all add: frames_def long_file_def downsample_factor_def target_points_def
        chunk_size_samples_def)

subsection \<open>Aligned blocks\<close>

lemma channel_windows_append:
  assumes "0 < d" and "d dvd length ys"
  shows "channel_windows d (ys @ zs) = channel_windows d ys @ channel_windows d zs"
  using assms
proof (induction d ys rule: sf_blocks_rows.induct)
  case (1 d ys)
  show ?case
  proof (cases "ys = []")
    case True
    then show ?thesis by simp
  next
    case False
    with "1.prems" have le: "d \<le> length ys"
      by (simp add: dvd_imp_le)
    then have dv: "d dvd length (drop d ys)"
      using "1.prems"(2) by (simp add: dvd_diff_nat)
    have IH: "channel_windows d (drop d ys @ zs) =
                channel_windows d (drop d ys) @ channel_windows d zs"
      using "1.IH" "1.prems"(1) False dv by simp
    have "channel_windows d (ys @ zs) = take d (ys @ zs) # channel_windows d (drop d (ys @ zs))"
      using "1.prems"(1) False by (intro channel_windows_rec) simp_all
    also have "\<dots> = take d ys # channel_windows d (drop d ys @ zs)"
      using le by simp
    also have "\<dots> = (take d ys # channel_windows d (drop d ys)) @ channel_windows d zs"
      by (simp add: IH)
    also have "take d ys # channel_windows d (drop d ys) = channel_windows d ys"
      using "1.prems"(1) False by (simp add: channel_windows_rec)
    finally show ?thesis .
  qed
qed

lemma aligned_blocks_windows:
  assumes "0 < c" and "0 < d" and "d dvd c"
  shows "concat (map (\<lambda>rows. channel_windows d (map g rows)) (sf_blocks_rows c xs)) =
           channel_windows d (map g xs)"
  using assms
proof (induction c xs rule: sf_blocks_rows.induct)
  case (1 c xs)
  show ?case
  proof (cases "xs = []")
    case True
    then show ?thesis by simp
  next
    case False
    note step = sf_blocks_rows_step [OF "1.prems"(1) False]
    have IH: "concat (map (\<lambda>rows. channel_windows d (map g rows)) (sf_blocks_rows c (drop c xs))) =
           channel_windows d (map g (drop c xs))"
      using "1.IH" "1.prems" False by simp
    show ?thesis
    proof (cases "c \<le> length xs")
      case True
      then have "d dvd length (map g (take c xs))"
        using "1.prems"(3) by (simp add: min_absorb2)
      from channel_windows_append [OF "1.prems"(2) this, of "map g (drop c xs)"]
      have "channel_windows d (map g xs) =
            channel_windows d (map g (take c xs)) @ channel_windows d (map g (drop c xs))"
        by (simp add: map_append [symmetric] del: map_append)
      then show ?thesis by (simp add: step IH)
    next
      case False
      then show ?thesis by (simp add: step IH)
    qed
  qed
qed

lemma aligned_blocks_series:
  assumes "wf_file f" and "i < channels f"
    and "downsample_factor target_points (frames f) dvd chunk_size_samples f"
  shows "channel_series f i = Inr (unblocked_reference f i)"
proof -
  have c: "0 < chunk_size_samples f"
    using assms(1) by (simp add: wf_file_def chunk_size_samples_def)
  have "emitted_windows f i =
          channel_windows (downsample_factor target_points (frames f)) (channel_stream f i)"
    unfolding emitted_windows_blocks [OF assms(1,2)] channel_stream_def
    by (rule aligned_blocks_windows [OF c downsample_factor_pos assms(3)])
  then show ?thesis
    by (simp add: channel_series_windows [OF assms(1,2)] unblocked_reference_def)
qed

subsection \<open>The time axis\<close>

lemma length_np_linspace [simp]: "length (np_linspace a b n) = n"
  by (simp add: np_linspace_def)

lemma np_linspace_nth:
  assumes "2 \<le> n" and "k < n"
  shows "np_linspace a b n ! k = real k * ((b - a) / real (n - 1)) + a"
proof (cases "k = n - 1")
  case True
  have "real (n - 1) * ((b - a) / real (n - 1)) = b - a"
    using assms(1) by simp
  then show ?thesis
    using assms True by (simp add: np_linspace_def)
next
  case False
  then show ?thesis
    using assms by (simp add: np_linspace_def)
qed

lemma np_linspace_first: "2 \<le> n \<Longrightarrow> np_linspace a b n ! 0 = a"
  by (simp add: np_linspace_nth)

lemma np_linspace_last: "2 \<le> n \<Longrightarrow> last (np_linspace a b n) = b"
  by (simp add: np_linspace_def last_list_update)

lemma np_linspace_step:
  assumes "2 \<le> n" and "Suc k < n"
  shows "np_linspace a b n ! Suc k - np_linspace a b n ! k = (b - a) / real (n - 1)"
proof -
  define s where "s = (b - a) / real (n - 1)"
  from assms have "k < n" by simp
  from np_linspace_nth [OF assms(1) assms(2), of a b] np_linspace_nth [OF assms(1) this, of a b]
  have "np_linspace a b n ! Suc k = real (Suc k) * s + a" "np_linspace a b n ! k = real k * s + a"
    by (simp_all only: s_def)
  then have "np_linspace a b n ! Suc k - np_linspace a b n ! k = s"
    by (simp add: algebra_simps)
  then show ?thesis by (simp only: s_def)
qed

lemma np_linspace_sorted:
  assumes "2 \<le> n" and "a \<le> b"
  shows "sorted (np_linspace a b n)"
proof (rule sorted_iff_nth_Suc [THEN iffD2], intro allI impI)
  fix k assume k: "Suc k < length (np_linspace a b n)"
  then have "Suc k < n" by simp
  from np_linspace_step [OF assms(1) this] assms
  have "0 \<le> np_linspace a b n ! Suc k - np_linspace a b n ! k" by simp
  then show "np_linspace a b n ! k \<le> np_linspace a b n ! Suc k" by simp
qed

lemma emitted_windows_exist:
  assumes "wf_file f" and "i < channels f" and "0 < frames f"
  shows "0 < length (emitted_windows f i)"
proof -
  have "concat (emitted_windows f i) \<noteq> []"
    using assms(3) unfolding concat_emitted_windows [OF assms(1,2)]
    by (simp add: channel_stream_def frames_def)
  then show ?thesis by auto
qed

lemma reduce_stream_no_frames:
  "frames f = 0 \<Longrightarrow> reduce_stream f = Inr (init_state (channels f))"
  by (simp add: reduce_stream_def reduce_stream_with_def sf_blocks_def frames_def)



text \<open>With the threshold of the code the sample at index 4 is not flagged.\<close>

lemma channel_series_scenario_file:
  "channel_series scenario_file 0 = Inr
     [(13421773 / 134217728, False), (13421773 / 134217728, False), (1, True), (1, True),
      (-1, True), (-1, True), (13421773 / 67108864, False), (13421773 / 67108864, False),
      (4152361 / 4194304, False), (4152361 / 4194304, False),
      (- (1 / 2), False), (- (1 / 2), False), (0, False), (0, False),
      (16777199 / 16777216, True), (16777199 / 16777216, True),
      (- (16777199 / 16777216), True), (- (16777199 / 16777216), True),
      (5033165 / 16777216, False), (5033165 / 16777216, False)]"
  by (simp add: channel_series_def eval_defs scenario_file_def)

lemma channel_series_edge_file:
  "channel_series edge_file 0 =
     Inr [(16777199 / 16777216, True), (16777199 / 16777216, True)]"
  by (simp add: channel_series_def eval_defs edge_file_def)



lemma sf_blocks_rows_single:
  "xs \<noteq> [] \<Longrightarrow> length xs \<le> n \<Longrightarrow> sf_blocks_rows n xs = [xs]"
  by (cases "n = 0") (simp_all add: sf_blocks_rows_step)

lemma channel_windows_nth:
  "k < (length xs + d - 1) div d \<Longrightarrow> channel_windows d xs ! k = take d (drop (k * d) xs)"
  by (simp add: channel_windows_def slice_def)

lemma wf_tail_file: "wf_file tail_file"
  by (simp add: wf_file_def tail_file_def list_all_iff)

lemma emitted_windows_tail_file:
  "length (emitted_windows tail_file 0) = 50001"
  "emitted_windows tail_file 0 ! 49999 = [0, 1]"
  "emitted_windows tail_file 0 ! 50000 = [-0.5, 0.25]"
proof -
  have ch: "0 < channels tail_file" by (simp add: tail_file_def)
  have fr: "frames tail_file = 100002" by (simp add: frames_def tail_file_def)
  have d: "downsample_factor target_points (frames tail_file) = 2"
    by (simp add: fr downsample_factor_def target_points_def)
  have c: "chunk_size_samples tail_file = 220500"
    by (simp add: chunk_size_samples_def tail_file_def)
  have blocks: "sf_blocks_rows 220500 (frames_data tail_file) = [frames_data tail_file]"
    by (rule sf_blocks_rows_single) (simp_all add: tail_file_def)
  have stream: "map (\<lambda>r. r ! 0) (frames_data tail_file) = replicate 99999 0 @ [1, -0.5, 0.25]"
    by (simp add: tail_file_def)
  have ws: "emitted_windows tail_file 0 = channel_windows 2 (replicate 99999 0 @ [1, -0.5, 0.25])"
    by (simp add: emitted_windows_blocks [OF wf_tail_file ch] d c blocks stream)
  show "length (emitted_windows tail_file 0) = 50001"
    by (simp add: ws length_channel_windows)
  show "emitted_windows tail_file 0 ! 49999 = [0, 1]"
    unfolding ws by (subst channel_windows_nth) simp_all
  show "emitted_windows tail_file 0 ! 50000 = [-0.5, 0.25]"
    unfolding ws by (subst channel_windows_nth) simp_all
qed

section \<open>The claims\<close>

subsection \<open>C1: the length of the output\<close>

text \<open>
  Claim C1, at a failing input. A mono file of 400000 frames at 44100 Hz is read in blocks
  of 220500 frames and reduced with factor 8. The claim gives every channel
  \<open>2 * ceil (400000 / 8) = 100000\<close> points; the run gives 100002, because 8 does not divide
  220500 and each of the two blocks ends in a short window.
\<close>

theorem output_length_long_file:
  "output_length (long_file 44100) 0 = Inr 100002
   \<and> frames (long_file 44100) = 400000
   \<and> downsample_factor target_points (frames (long_file 44100)) = 8
   \<and> chunk_size_samples (long_file 44100) = 220500
   \<and> 2 * ((frames (long_file 44100) + 8 - 1) div 8) = 100000"
proof -
  have wf: "wf_file (long_file 44100)" by (simp add: wf_long_file)
  have ch: "0 < channels (long_file 44100)" by (simp add: long_file_facts)
  show ?thesis
    by (simp add: output_length_blocks [OF wf ch] long_file_facts)
qed

subsection \<open>C2: the block size and the output\<close>

text \<open>
  Claim C2, at a failing input. The same 400000 frames are reduced once from a file at
  44100 Hz (blocks of 220500 frames) and once from a file at 48000 Hz (blocks of 240000
  frames). The second run equals the unblocked reference, 100000 points; the first run
  does not: it has 100002 points.
\<close>

theorem block_size_changes_output:
  "frames_data (long_file 44100) = frames_data (long_file 48000)
   \<and> chunk_size_samples (long_file 44100) = 220500
   \<and> chunk_size_samples (long_file 48000) = 240000
   \<and> unblocked_reference (long_file 44100) 0 = unblocked_reference (long_file 48000) 0
   \<and> length (unblocked_reference (long_file 44100) 0) = 100000
   \<and> channel_series (long_file 48000) 0 = Inr (unblocked_reference (long_file 48000) 0)
   \<and> channel_series (long_file 44100) 0 \<noteq> Inr (unblocked_reference (long_file 44100) 0)
   \<and> channel_series (long_file 44100) 0 \<noteq> channel_series (long_file 48000) 0"
proof -
  have wf1: "wf_file (long_file 44100)" and wf2: "wf_file (long_file 48000)"
    by (simp_all add: wf_long_file)
  have ch1: "0 < channels (long_file 44100)" and ch2: "0 < channels (long_file 48000)"
    by (simp_all add: long_file_facts)
  have data: "frames_data (long_file 44100) = frames_data (long_file 48000)"
    by (simp add: long_file_def)
  have ref_eq: "unblocked_reference (long_file 44100) 0 = unblocked_reference (long_file 48000) 0"
    by (simp add: unblocked_reference_def long_file_facts channel_stream_def data)
  have ref_len: "length (unblocked_reference (long_file 44100) 0) = 100000"
    by (simp add: unblocked_reference_def length_window_pairs length_channel_windows
          long_file_facts)
  have aligned: "channel_series (long_file 48000) 0 = Inr (unblocked_reference (long_file 48000) 0)"
    by (rule aligned_blocks_series [OF wf2 ch2]) (simp add: long_file_facts)
  have "length (emitted_windows (long_file 44100) 0) = 50001"
    by (simp add: length_emitted_windows [OF wf1 ch1] long_file_facts)
  then have len1: "length (concat (map (window_pairs clip_threshold)
      (emitted_windows (long_file 44100) 0))) = 100002"
    by (simp add: length_window_pairs)
  have ne: "channel_series (long_file 44100) 0 \<noteq> Inr (unblocked_reference (long_file 44100) 0)"
  proof
    assume "channel_series (long_file 44100) 0 = Inr (unblocked_reference (long_file 44100) 0)"
    then have "concat (map (window_pairs clip_threshold) (emitted_windows (long_file 44100) 0)) =
               unblocked_reference (long_file 44100) 0"
      by (simp add: channel_series_windows [OF wf1 ch1])
    with len1 ref_len show False by simp
  qed
  from ne aligned ref_eq
  have "channel_series (long_file 44100) 0 \<noteq> channel_series (long_file 48000) 0" by simp
  with data ref_eq ref_len aligned ne show ?thesis
    by (simp add: long_file_facts)
qed

subsection \<open>C3: the clip flag of a window\<close>

text \<open>
  Claim C3, as the code has it. The sample \<open>16777199 / 2^24\<close> is below \<open>1 - 10^-6\<close>, and the
  window that holds it alone is flagged, at both of its points.
\<close>

theorem flagged_below_decimal_threshold:
  "channel_series edge_file 0 =
     Inr [(16777199 / 16777216, True), (16777199 / 16777216, True)]
   \<and> \<bar>16777199 / 16777216\<bar> < (1 - 1 / 10 ^ 6 :: real)"
  by (simp add: channel_series_edge_file)

text \<open>
  Claim C3, amended. Whatever threshold the comparison of line 72 is given, for every
  channel and every window \<open>k\<close> the loops form, the flag stored at position \<open>2k\<close> (beside
  the maximum) is true exactly when some sample of the window has absolute value at or
  above that threshold, and the flag at position \<open>2k + 1\<close> (beside the minimum) is the same
  flag. The code runs with the threshold \<open>16777199 / 2^24\<close>, which is within half a
  \<^verbatim>\<open>float32\<close> step, \<open>2^-25\<close>, of \<open>1 - 10^-6\<close>.
\<close>

theorem clip_flag_iff:
  assumes "wf_file f" and "i < channels f"
  shows "(\<exists>st. reduce_stream_with thr f = Inr st
       \<and> length (clipped_status st ! i) = 2 * length (emitted_windows f i)
       \<and> (\<forall>k < length (emitted_windows f i).
            (clipped_status st ! i ! (2 * k) \<longleftrightarrow>
               (\<exists>x \<in> set (emitted_windows f i ! k). \<bar>x\<bar> \<ge> thr))
          \<and> clipped_status st ! i ! (2 * k + 1) = clipped_status st ! i ! (2 * k)))
     \<and> reduce_stream f = reduce_stream_with clip_threshold f
     \<and> clip_threshold = 16777199 / 16777216
     \<and> \<bar>clip_threshold - (1 - 1 / 10 ^ 6)\<bar> < 1 / 2 ^ 25"
proof -
  let ?ws = "emitted_windows f i"
  from reduce_stream_with_result [OF assms(1), of thr] assms(2) obtain st where
    run: "reduce_stream_with thr f = Inr st" and
    cs: "clipped_status st ! i = concat (map (window_flags thr) ?ws)"
    by blast
  have "\<forall>k < length ?ws.
          (clipped_status st ! i ! (2 * k) \<longleftrightarrow> (\<exists>x \<in> set (?ws ! k). \<bar>x\<bar> \<ge> thr))
        \<and> clipped_status st ! i ! (2 * k + 1) = clipped_status st ! i ! (2 * k)"
    unfolding cs using window_flags_nth by (simp add: window_clipped_def)
  moreover have "length (clipped_status st ! i) = 2 * length ?ws"
    by (simp add: cs length_window_flags)
  moreover have "\<bar>clip_threshold - (1 - 1 / 10 ^ 6)\<bar> < 1 / 2 ^ 25"
    by (simp add: clip_threshold_def)
  ultimately show ?thesis
    using run by (auto simp: clip_threshold_def reduce_stream_def)
qed

theorem clip_flag_iff_witness:
  "wf_file tail_file \<and> (0::nat) < channels tail_file
   \<and> (\<exists>st. reduce_stream tail_file = Inr st
         \<and> length (clipped_status st ! 0) = 100002
         \<and> clipped_status st ! 0 ! 99998 \<and> clipped_status st ! 0 ! 99999
         \<and> \<not> clipped_status st ! 0 ! 100000 \<and> \<not> clipped_status st ! 0 ! 100001)
   \<and> (\<exists>st. reduce_stream_with 0.5 tail_file = Inr st
         \<and> clipped_status st ! 0 ! 100000 \<and> clipped_status st ! 0 ! 100001)"
proof -
  have ch: "(0::nat) < channels tail_file" by (simp add: tail_file_def)
  note flag_iff = clip_flag_iff [OF wf_tail_file ch]
  from flag_iff [of clip_threshold] obtain st where
    run: "reduce_stream tail_file = Inr st" and
    len: "length (clipped_status st ! 0) = 2 * length (emitted_windows tail_file 0)" and
    flags: "\<forall>k < length (emitted_windows tail_file 0).
          (clipped_status st ! 0 ! (2 * k) \<longleftrightarrow>
             (\<exists>x \<in> set (emitted_windows tail_file 0 ! k). \<bar>x\<bar> \<ge> clip_threshold))
        \<and> clipped_status st ! 0 ! (2 * k + 1) = clipped_status st ! 0 ! (2 * k)"
    by auto
  from flag_iff [of "0.5"] obtain st' where
    run': "reduce_stream_with 0.5 tail_file = Inr st'" and
    flags': "\<forall>k < length (emitted_windows tail_file 0).
          (clipped_status st' ! 0 ! (2 * k) \<longleftrightarrow>
             (\<exists>x \<in> set (emitted_windows tail_file 0 ! k). \<bar>x\<bar> \<ge> 0.5))
        \<and> clipped_status st' ! 0 ! (2 * k + 1) = clipped_status st' ! 0 ! (2 * k)"
    by blast
  from len have "length (clipped_status st ! 0) = 100002"
    by (simp add: emitted_windows_tail_file)
  moreover from flags [rule_format, of 49999]
  have "clipped_status st ! 0 ! 99998" "clipped_status st ! 0 ! 99999"
    by (simp_all add: emitted_windows_tail_file clip_threshold_def)
  moreover from flags [rule_format, of 50000]
  have "\<not> clipped_status st ! 0 ! 100000" "\<not> clipped_status st ! 0 ! 100001"
    by (simp_all add: emitted_windows_tail_file clip_threshold_def)
  moreover from flags' [rule_format, of 50000]
  have "clipped_status st' ! 0 ! 100000" "clipped_status st' ! 0 ! 100001"
    by (simp_all add: emitted_windows_tail_file)
  ultimately show ?thesis using wf_tail_file ch run run' by blast
qed

subsection \<open>C4: two points for every window\<close>

text \<open>
  Claim C4. The run succeeds on every well-formed file. For every channel, the windows the
  loops form are non-empty and, concatenated, are the samples of the channel; the output of
  the channel holds two points per window, in window order: at position \<open>2k\<close> the largest
  sample of window \<open>k\<close>, at position \<open>2k + 1\<close> its smallest sample. The first is at least
  the second, and both are samples of that window.
\<close>

theorem window_max_then_min:
  assumes "wf_file f" and "i < channels f"
  shows "\<exists>st. reduce_stream f = Inr st
     \<and> concat (emitted_windows f i) = channel_stream f i
     \<and> length (downsampled_data st ! i) = 2 * length (emitted_windows f i)
     \<and> (\<forall>k < length (emitted_windows f i).
          emitted_windows f i ! k \<noteq> []
        \<and> downsampled_data st ! i ! (2 * k) = Max (set (emitted_windows f i ! k))
        \<and> downsampled_data st ! i ! (2 * k + 1) = Min (set (emitted_windows f i ! k))
        \<and> downsampled_data st ! i ! (2 * k + 1) \<le> downsampled_data st ! i ! (2 * k)
        \<and> downsampled_data st ! i ! (2 * k) \<in> set (emitted_windows f i ! k)
        \<and> downsampled_data st ! i ! (2 * k + 1) \<in> set (emitted_windows f i ! k))"
proof -
  let ?ws = "emitted_windows f i"
  from reduce_stream_result [OF assms(1)] assms(2) obtain st where
    run: "reduce_stream f = Inr st" and
    dd: "downsampled_data st ! i = concat (map window_points ?ws)"
    by blast
  have "\<forall>k < length ?ws.
          ?ws ! k \<noteq> []
        \<and> downsampled_data st ! i ! (2 * k) = Max (set (?ws ! k))
        \<and> downsampled_data st ! i ! (2 * k + 1) = Min (set (?ws ! k))
        \<and> downsampled_data st ! i ! (2 * k + 1) \<le> downsampled_data st ! i ! (2 * k)
        \<and> downsampled_data st ! i ! (2 * k) \<in> set (?ws ! k)
        \<and> downsampled_data st ! i ! (2 * k + 1) \<in> set (?ws ! k)"
  proof (intro allI impI)
    fix k assume k: "k < length ?ws"
    then have ne: "?ws ! k \<noteq> []"
      using emitted_windows_nonempty [OF assms(1), of "?ws ! k" i] by simp
    have mx: "downsampled_data st ! i ! (2 * k) = Max (set (?ws ! k))"
      and mn: "downsampled_data st ! i ! (2 * k + 1) = Min (set (?ws ! k))"
      unfolding dd using window_points_nth [OF k] by simp_all
    have "Max (set (?ws ! k)) \<in> set (?ws ! k)" "Min (set (?ws ! k)) \<in> set (?ws ! k)"
      using ne by simp_all
    with ne mx mn Min_le_Max_window [OF ne]
    show "?ws ! k \<noteq> []
        \<and> downsampled_data st ! i ! (2 * k) = Max (set (?ws ! k))
        \<and> downsampled_data st ! i ! (2 * k + 1) = Min (set (?ws ! k))
        \<and> downsampled_data st ! i ! (2 * k + 1) \<le> downsampled_data st ! i ! (2 * k)
        \<and> downsampled_data st ! i ! (2 * k) \<in> set (?ws ! k)
        \<and> downsampled_data st ! i ! (2 * k + 1) \<in> set (?ws ! k)"
      by simp
  qed
  moreover have "length (downsampled_data st ! i) = 2 * length ?ws"
    by (simp add: dd length_window_points)
  moreover note run concat_emitted_windows [OF assms]
  ultimately show ?thesis by blast
qed

theorem window_max_then_min_witness:
  "wf_file tail_file \<and> (0::nat) < channels tail_file
   \<and> (\<exists>st. reduce_stream tail_file = Inr st
         \<and> length (downsampled_data st ! 0) = 100002
         \<and> downsampled_data st ! 0 ! 99998 = 1 \<and> downsampled_data st ! 0 ! 99999 = 0
         \<and> downsampled_data st ! 0 ! 100000 = 0.25 \<and> downsampled_data st ! 0 ! 100001 = - 0.5)"
proof -
  have ch: "(0::nat) < channels tail_file" by (simp add: tail_file_def)
  from window_max_then_min [OF wf_tail_file ch] obtain st where
    run: "reduce_stream tail_file = Inr st" and
    len: "length (downsampled_data st ! 0) = 2 * length (emitted_windows tail_file 0)" and
    pts: "\<forall>k < length (emitted_windows tail_file 0).
          downsampled_data st ! 0 ! (2 * k) = Max (set (emitted_windows tail_file 0 ! k))
        \<and> downsampled_data st ! 0 ! (2 * k + 1) = Min (set (emitted_windows tail_file 0 ! k))"
    by blast
  from len have "length (downsampled_data st ! 0) = 100002"
    by (simp add: emitted_windows_tail_file)
  moreover from pts [rule_format, of 49999]
  have "downsampled_data st ! 0 ! 99998 = 1" "downsampled_data st ! 0 ! 99999 = 0"
    by (simp_all add: emitted_windows_tail_file)
  moreover from pts [rule_format, of 50000]
  have "downsampled_data st ! 0 ! 100000 = 0.25" "downsampled_data st ! 0 ! 100001 = - 0.5"
    by (simp_all add: emitted_windows_tail_file)
  ultimately show ?thesis using wf_tail_file ch run by blast
qed

subsection \<open>C5: the downsample factor\<close>

text \<open>
  Claim C5. For every frame count and every positive number of target points, the factor
  computed at lines 43 to 46 is the larger of 1 and the integer quotient of the two. When
  the frame count does not exceed the target, the factor is 1 and the windows of a channel
  are its samples, one by one; for a file of at most 50000 frames that holds for the
  windows the run forms over the whole file.
\<close>

theorem downsample_factor_max:
  assumes "0 < tp"
  shows "downsample_factor tp total_frames = max 1 (total_frames div tp)
       \<and> (total_frames \<le> tp \<longrightarrow>
            downsample_factor tp total_frames = 1
          \<and> channel_windows (downsample_factor tp total_frames) xs = map (\<lambda>x. [x]) xs)
       \<and> (wf_file f \<and> frames f \<le> target_points \<and> i < channels f \<longrightarrow>
            downsample_factor target_points (frames f) = 1
          \<and> emitted_windows f i = map (\<lambda>x. [x]) (channel_stream f i))"
proof (intro conjI impI)
  show "downsample_factor tp total_frames = max 1 (total_frames div tp)"
  proof (cases "total_frames > tp")
    case True
    with assms have "1 \<le> total_frames div tp"
      by (simp add: div_greater_zero_iff Suc_le_eq)
    with True show ?thesis by (simp add: downsample_factor_def max_def)
  next
    case False
    with assms have "total_frames div tp \<le> 1"
      by (metis div_le_mono div_self less_numeral_extra(3) not_less)
    with False show ?thesis by (simp add: downsample_factor_def max_def)
  qed
next
  assume "total_frames \<le> tp"
  then show "downsample_factor tp total_frames = 1"
    by (simp add: downsample_factor_def)
  then show "channel_windows (downsample_factor tp total_frames) xs = map (\<lambda>x. [x]) xs"
    by (simp add: channel_windows_one)
next
  assume a: "wf_file f \<and> frames f \<le> target_points \<and> i < channels f"
  then show "downsample_factor target_points (frames f) = 1"
    by (simp add: downsample_factor_def)
  from a show "emitted_windows f i = map (\<lambda>x. [x]) (channel_stream f i)"
    by (simp add: small_file_windows)
qed

theorem downsample_factor_max_witness:
  "(0::nat) < 50000
   \<and> downsample_factor 50000 100000 = max 1 (100000 div 50000)
   \<and> downsample_factor 50000 100000 = 2
   \<and> downsample_factor 50000 7 = 1
   \<and> channel_windows (downsample_factor 50000 7) [0.5, -1, 0.25] = [[0.5], [-1], [0.25]]
   \<and> wf_file stereo_file \<and> frames stereo_file \<le> target_points
   \<and> emitted_windows stereo_file 1 = [[-1], [0.3], [1]]"
proof -
  have tp: "(0::nat) < 50000" by simp
  have small: "(7::nat) \<le> 50000" by simp
  have fr: "frames stereo_file \<le> target_points"
    by (simp add: frames_def stereo_file_def target_points_def)
  have ch: "(1::nat) < channels stereo_file" by (simp add: stereo_file_def)
  note a = downsample_factor_max [OF tp, of 100000 "[]" stereo_file 1]
  note b = downsample_factor_max [OF tp, of 7 "[0.5, -1, 0.25]" stereo_file 1]
  from a have "downsample_factor 50000 100000 = max 1 (100000 div 50000)" by blast
  moreover from this have "downsample_factor 50000 100000 = 2" by simp
  moreover from b small have "downsample_factor 50000 7 = 1"
    and "channel_windows (downsample_factor 50000 7) [0.5, -1, 0.25] = [[0.5], [-1], [0.25]]"
    by (simp_all add: channel_windows_one)
  moreover from b wf_stereo_file fr ch
  have "emitted_windows stereo_file 1 = map (\<lambda>x. [x]) (channel_stream stereo_file 1)"
    by blast
  then have "emitted_windows stereo_file 1 = [[-1], [0.3], [1]]"
    by (simp add: channel_stream_def stereo_file_def)
  ultimately show ?thesis using tp wf_stereo_file fr by blast
qed

subsection \<open>C6: the time axis\<close>

text \<open>
  Claim C6, as the code has it. For a file without frames the reducer returns empty
  channels and the time axis is empty: it has no first and no last element.
\<close>

theorem time_axis_empty_file:
  "frames empty_file = 0
   \<and> reduce_stream empty_file = Inr (init_state 1)
   \<and> time_axis empty_file (init_state 1) = Inr []"
proof -
  have fr: "frames empty_file = 0" by (simp add: frames_def empty_file_def)
  have ch: "channels empty_file = 1" by (simp add: empty_file_def)
  from reduce_stream_no_frames [OF fr] have "reduce_stream empty_file = Inr (init_state 1)"
    by (simp only: ch)
  moreover have "time_axis empty_file (init_state 1) = Inr []"
    by (simp add: time_axis_def init_state_def np_linspace_def empty_file_def)
  ultimately show ?thesis using fr by simp
qed

text \<open>
  Claim C6, amended. For every well-formed file with at least one frame the run returns,
  and the time axis built from it has as many points as channel 0 has output points, at
  least two; it starts at 0, ends at \<open>frames / samplerate\<close>, any two neighbours are
  \<open>(frames / samplerate) / (N - 1)\<close> apart, and it is sorted.
\<close>

theorem time_axis_evenly_spaced:
  assumes "wf_file f" and "0 < frames f"
  shows "\<exists>st t. reduce_stream f = Inr st \<and> time_axis f st = Inr t
     \<and> length t = length (downsampled_data st ! 0)
     \<and> 2 \<le> length t
     \<and> t ! 0 = 0
     \<and> last t = real (frames f) / real (samplerate f)
     \<and> (\<forall>k. Suc k < length t \<longrightarrow>
           t ! Suc k - t ! k = (real (frames f) / real (samplerate f)) / real (length t - 1))
     \<and> sorted t"
proof -
  have ch: "0 < channels f" and sr: "0 < samplerate f"
    using assms(1) by (simp_all add: wf_file_def)
  from reduce_stream_result [OF assms(1)] ch obtain st where
    run: "reduce_stream f = Inr st" and
    len: "length (downsampled_data st) = channels f" and
    dd: "downsampled_data st ! 0 = concat (map window_points (emitted_windows f 0))"
    by blast
  define n where "n = length (downsampled_data st ! 0)"
  define dur where "dur = real (frames f) / real (samplerate f)"
  define t where "t = np_linspace 0 dur n"
  from len ch obtain c cs where "downsampled_data st = c # cs"
    by (cases "downsampled_data st") auto
  then have axis: "time_axis f st = Inr t"
    using sr by (simp add: time_axis_def t_def n_def dur_def Let_def)
  have "n = 2 * length (emitted_windows f 0)"
    by (simp only: n_def dd length_window_points)
  with emitted_windows_exist [OF assms(1) ch assms(2)] have n2: "2 \<le> n"
    by arith
  have dur0: "0 \<le> dur" by (simp add: dur_def)
  have "length t = length (downsampled_data st ! 0)" by (simp add: t_def n_def)
  moreover have "2 \<le> length t" using n2 by (simp add: t_def)
  moreover have "t ! 0 = 0" by (simp add: t_def np_linspace_first [OF n2])
  moreover have "last t = real (frames f) / real (samplerate f)"
    by (simp add: t_def np_linspace_last [OF n2] dur_def)
  moreover have "\<forall>k. Suc k < length t \<longrightarrow>
      t ! Suc k - t ! k = (real (frames f) / real (samplerate f)) / real (length t - 1)"
    using np_linspace_step [OF n2, of _ 0 dur] by (simp add: t_def dur_def)
  moreover have "sorted t"
    unfolding t_def using n2 dur0 by (rule np_linspace_sorted)
  ultimately show ?thesis
    using run axis by blast
qed

theorem time_axis_evenly_spaced_witness:
  "wf_file stereo_file \<and> 0 < frames stereo_file
   \<and> (\<exists>st t. reduce_stream stereo_file = Inr st \<and> time_axis stereo_file st = Inr t
         \<and> length t = 6 \<and> t ! 0 = 0 \<and> last t = 3 / 8000 \<and> t ! 1 - t ! 0 = 3 / 40000)"
proof -
  have fr: "0 < frames stereo_file" and frv: "frames stereo_file = 3"
    and srv: "samplerate stereo_file = 8000"
    by (simp_all add: frames_def stereo_file_def)
  from time_axis_evenly_spaced [OF wf_stereo_file fr] obtain st t where
    run: "reduce_stream stereo_file = Inr st" and axis: "time_axis stereo_file st = Inr t" and
    len: "length t = length (downsampled_data st ! 0)" and
    first: "t ! 0 = 0" and lst: "last t = real (frames stereo_file) / real (samplerate stereo_file)" and
    step: "\<forall>k. Suc k < length t \<longrightarrow>
           t ! Suc k - t ! k =
             (real (frames stereo_file) / real (samplerate stereo_file)) / real (length t - 1)"
    by blast
  from reduce_stream_result [OF wf_stereo_file] run
  have "downsampled_data st ! 0 = concat (map window_points (emitted_windows stereo_file 0))"
    by (simp add: stereo_file_def)
  then have "length (downsampled_data st ! 0) = 2 * length (emitted_windows stereo_file 0)"
    by (simp only: length_window_points)
  with len have len6: "length t = 6"
    by (simp add: emitted_windows_stereo_file)
  from step [rule_format, of 0] len6 have "t ! 1 - t ! 0 = 3 / 40000"
    by (simp add: frv srv)
  with run axis len6 first lst wf_stereo_file fr show ?thesis
    by (auto simp: frv srv)
qed

subsection \<open>C7: a file without frames\<close>

text \<open>
  Claim C7, as the code has it. On the mono file without frames the function prints
  that an \<^verbatim>\<open>IndexError\<close> occurred, saves no image, and raises nothing to its caller.
\<close>

theorem visualize_empty_file:
  "visualize_waveform (Some empty_file) =
     \<lparr>printed = [Reading_chunks, Plotting_waveforms, An_error_occurred IndexError],
      saved = None, raised = None\<rparr>"
  by (simp add: visualize_waveform_def reduce_stream_no_frames frames_def empty_file_def
        time_axis_def init_state_def np_linspace_def render_def)

text \<open>
  Claim C7, amended. For every well-formed file without frames the reducer returns empty
  channels without an error, the time axis is empty, and the read of its first element at
  line 103 raises \<^verbatim>\<open>IndexError\<close>; the function catches it, prints a message, saves no
  image and raises nothing.
\<close>

theorem empty_stream_caught_and_printed:
  assumes "wf_file f" and "frames f = 0"
  shows "reduce_stream f = Inr (init_state (channels f))
     \<and> time_axis f (init_state (channels f)) = Inr []
     \<and> render f (init_state (channels f)) [] = Inl IndexError
     \<and> visualize_waveform (Some f) =
         \<lparr>printed = [Reading_chunks, Plotting_waveforms, An_error_occurred IndexError],
          saved = None, raised = None\<rparr>"
proof -
  have ch: "0 < channels f" and sr: "0 < samplerate f"
    using assms(1) by (simp_all add: wf_file_def)
  have run: "reduce_stream f = Inr (init_state (channels f))"
    using assms(2) by (rule reduce_stream_no_frames)
  obtain m where m: "channels f = Suc m" using ch by (cases "channels f") auto
  have axis: "time_axis f (init_state (channels f)) = Inr []"
    using sr by (simp add: time_axis_def init_state_def m np_linspace_def)
  have rnd: "render f (init_state (channels f)) [] = Inl IndexError"
    using ch by (simp add: render_def)
  show ?thesis
    by (simp add: visualize_waveform_def run axis rnd)
qed

theorem empty_stream_caught_and_printed_witness:
  "wf_file empty_stereo_file \<and> frames empty_stereo_file = 0
   \<and> reduce_stream empty_stereo_file = Inr \<lparr>downsampled_data = [[], []], clipped_status = [[], []]\<rparr>
   \<and> saved (visualize_waveform (Some empty_stereo_file)) = None
   \<and> raised (visualize_waveform (Some empty_stereo_file)) = None
   \<and> printed (visualize_waveform (Some empty_stereo_file)) =
        [Reading_chunks, Plotting_waveforms, An_error_occurred IndexError]"
proof -
  have wf: "wf_file empty_stereo_file" by (simp add: wf_file_def empty_stereo_file_def)
  have fr: "frames empty_stereo_file = 0" by (simp add: frames_def empty_stereo_file_def)
  from empty_stream_caught_and_printed [OF wf fr] wf fr show ?thesis
    by (simp add: init_state_def empty_stereo_file_def replicate_two)
qed

subsection \<open>C8: the ten-sample scenario\<close>


subsection \<open>C10: every point carries a flag\<close>

text \<open>
  Claim C10. The run is the sequence of executions of the loop body, and after any number
  \<open>k\<close> of them the accumulators exist (no error has occurred), both hold one list per
  channel, and for every channel the list of flags is exactly as long as the list of
  values: twice the number of windows flushed into that channel so far.
\<close>

theorem clipped_status_length_invariant:
  assumes "wf_file f"
  shows "reduce_stream f = state_after f (length (flush_events f))
     \<and> (\<forall>k. \<exists>st. state_after f k = Inr st
           \<and> length (downsampled_data st) = channels f
           \<and> length (clipped_status st) = channels f
           \<and> (\<forall>i < channels f.
                 length (clipped_status st ! i) = length (downsampled_data st ! i)
               \<and> length (downsampled_data st ! i) =
                   2 * length (windows_of i (take k (flush_events f)))))"
proof (intro conjI allI)
  show "reduce_stream f = state_after f (length (flush_events f))"
    by (simp add: reduce_stream_events state_after_def)
next
  fix k
  let ?evs = "take k (flush_events f)"
  have valid: "\<forall>(i, w) \<in> set ?evs. i < channels f \<and> w \<noteq> []"
    using flush_events_valid [OF assms] by (auto dest: in_set_takeD)
  from for_each_events [OF valid init_state_lengths] obtain st where
    run: "for_each (\<lambda>(i, w). process_window clip_threshold i w) ?evs
            (init_state (channels f)) = Inr st" and
    len: "length (downsampled_data st) = channels f" "length (clipped_status st) = channels f" and
    pts: "\<forall>i < channels f.
        downsampled_data st ! i =
          downsampled_data (init_state (channels f)) ! i @ concat (map window_points (windows_of i ?evs))
      \<and> clipped_status st ! i =
          clipped_status (init_state (channels f)) ! i @
            concat (map (window_flags clip_threshold) (windows_of i ?evs))"
    by blast
  have "\<forall>i < channels f.
          length (clipped_status st ! i) = length (downsampled_data st ! i)
        \<and> length (downsampled_data st ! i) = 2 * length (windows_of i ?evs)"
    using pts by (simp add: length_window_points length_window_flags)
  with run len
  show "\<exists>st. state_after f k = Inr st
           \<and> length (downsampled_data st) = channels f
           \<and> length (clipped_status st) = channels f
           \<and> (\<forall>i < channels f.
                 length (clipped_status st ! i) = length (downsampled_data st ! i)
               \<and> length (downsampled_data st ! i) = 2 * length (windows_of i ?evs))"
    unfolding state_after_def by blast
qed

theorem clipped_status_length_invariant_witness:
  "wf_file stereo_file
   \<and> reduce_stream stereo_file = state_after stereo_file 6
   \<and> (\<exists>st. state_after stereo_file 4 = Inr st
         \<and> length (clipped_status st ! 0) = 6 \<and> length (downsampled_data st ! 0) = 6
         \<and> length (clipped_status st ! 1) = 2 \<and> length (downsampled_data st ! 1) = 2)"
proof -
  note inv = clipped_status_length_invariant [OF wf_stereo_file]
  have "length (flush_events stereo_file) = 6"
    by (simp add: flush_events_stereo_file)
  with inv have "reduce_stream stereo_file = state_after stereo_file 6"
    by simp
  moreover from inv obtain st where
    st: "state_after stereo_file 4 = Inr st" and
    eq: "\<forall>i < channels stereo_file.
           length (clipped_status st ! i) = length (downsampled_data st ! i)
         \<and> length (downsampled_data st ! i) =
             2 * length (windows_of i (take 4 (flush_events stereo_file)))"
    by blast
  have ch: "channels stereo_file = 2" by (simp add: stereo_file_def)
  from eq [rule_format, of 0] have "length (clipped_status st ! 0) = 6" "length (downsampled_data st ! 0) = 6"
    by (simp_all add: ch flush_events_stereo_file windows_of_def)
  moreover from eq [rule_format, of 1] have "length (clipped_status st ! 1) = 2" "length (downsampled_data st ! 1) = 2"
    by (simp_all add: ch flush_events_stereo_file windows_of_def)
  ultimately show ?thesis using wf_stereo_file st by blast
qed

end
